theory Spec2Isabelle
  imports Complex_Main "HOL-Library.Word" "HOL-Library.Multiset"
begin

section \<open>The model\<close>

subsection \<open>Pagination window of the record table (CallsTable, getVisiblePages)\<close>

text \<open>
  The array \<open>pages\<close> of \<open>getVisiblePages\<close> holds page numbers and the string
  \<open>'ellipsis'\<close>. Page numbers are JavaScript numbers with integer values
  (\<open>totalPages\<close> is a \<open>Math.ceil\<close>, \<open>currentPage\<close> starts at 1 and moves by
  whole pages), so they are modelled as \<open>int\<close>.
\<close>

datatype page_item = PageNum int | Ellipsis

text \<open>\<open>pages.push(x)\<close>: the array with \<open>x\<close> appended.\<close>

definition push :: "page_item list \<Rightarrow> page_item \<Rightarrow> page_item list" where
  "push pages x = pages @ [x]"

text \<open>
  The loop \<open>for (let i = lo; i <= hi; i++) pages.push(i)\<close>, with the array it
  extends as an accumulator.
\<close>

function push_range :: "int \<Rightarrow> int \<Rightarrow> page_item list \<Rightarrow> page_item list" where
  "push_range i hi pages =
     (if i \<le> hi then push_range (i + 1) hi (push pages (PageNum i)) else pages)"
  by pat_completeness auto
termination
  by (relation "measure (\<lambda>(i, hi, pages). nat (hi + 1 - i))") auto

declare push_range.simps [simp del]

definition maxVisible :: int where
  "maxVisible = 7"

definition getVisiblePages :: "int \<Rightarrow> int \<Rightarrow> page_item list" where
  "getVisiblePages currentPage totalPages =
     (let pages = [] in
      if totalPages \<le> maxVisible then
        push_range 1 totalPages pages
      else if currentPage \<le> 4 then
        push (push (push_range 1 5 pages) Ellipsis) (PageNum totalPages)
      else if currentPage \<ge> totalPages - 3 then
        push_range (totalPages - 4) totalPages (push (push pages (PageNum 1)) Ellipsis)
      else
        push (push
          (push_range (currentPage - 1) (currentPage + 1)
             (push (push pages (PageNum 1)) Ellipsis))
          Ellipsis) (PageNum totalPages))"

text \<open>The page numbers of a window, in order, with the ellipsis markers left out.\<close>

fun page_numbers :: "page_item list \<Rightarrow> int list" where
  "page_numbers [] = []"
| "page_numbers (PageNum n # xs) = n # page_numbers xs"
| "page_numbers (Ellipsis # xs) = page_numbers xs"

subsection \<open>Strings and numbers of the source\<close>

text \<open>
  A JavaScript string is a sequence of UTF-16 code units: \<open>s.length\<close> counts them and
  \<open>s.substring\<close> cuts between them. String literals of the source are ASCII and are
  written through \<open>ascii\<close>.
\<close>

type_synonym code_unit = "16 word"

type_synonym jsstring = "code_unit list"

definition ascii :: "string \<Rightarrow> jsstring" where
  "ascii s = map of_char s"

text \<open>
  \<open>s.substring(a, b)\<close> for non-negative integer arguments: the arguments are swapped
  when \<open>a > b\<close> and clamped to the length of the string.
\<close>

definition substring :: "jsstring \<Rightarrow> nat \<Rightarrow> nat \<Rightarrow> jsstring" where
  "substring s a b = take (max a b - min a b) (drop (min a b) s)"

text \<open>
  Every argument of \<open>Number(...)\<close> in the source has the declared type \<open>number\<close>, and
  on a number \<open>Number\<close> returns its argument.
\<close>

definition Number :: "'n \<Rightarrow> 'n" where
  "Number x = x"

text \<open>
  The text of a non-negative integer in a template literal (\<open>`${hour}`\<close>): its decimal
  digits.
\<close>

definition digits :: string where
  "digits = ''0123456789''"

fun decimal :: "nat \<Rightarrow> string" where
  "decimal n = (if n < 10 then [digits ! n] else decimal (n div 10) @ [digits ! (n mod 10)])"

declare decimal.simps [simp del]

subsection \<open>Chart data shaping (CallsChart)\<close>

text \<open>The rows of the three aggregate collections of \<open>ChartData\<close>.\<close>

record DailyRow =
  call_date :: jsstring
  call_count :: int
  total_cost :: real
  total_minutes :: real

record OutcomeRow =
  outcome_name :: jsstring
  outcome_count :: int

record HourlyRow =
  call_hour :: int
  call_count :: int

record ChartData =
  daily :: "DailyRow list"
  outcomes :: "OutcomeRow list"
  hourly :: "HourlyRow list"

text \<open>The entries of the three series handed to the charts.\<close>

record DailyStat =
  date :: jsstring
  calls :: int
  cost :: real
  minutes :: real

record PieDatum =
  name :: jsstring
  "value" :: int
  displayName :: jsstring

record HourlyDatum =
  hour :: jsstring
  calls :: int

text \<open>
  \<open>xs.map(f)\<close> with a callback that may throw: the callback runs on the elements from
  left to right, and the first exception ends the call (\<open>None\<close>).
\<close>

fun map_throwing :: "('a \<Rightarrow> 'b option) \<Rightarrow> 'a list \<Rightarrow> 'b list option" where
  "map_throwing f [] = Some []"
| "map_throwing f (x # xs) =
     (case f x of
        None \<Rightarrow> None
      | Some y \<Rightarrow> (case map_throwing f xs of None \<Rightarrow> None | Some ys \<Rightarrow> Some (y # ys)))"

text \<open>
  The callback of \<open>dailyStats\<close>. The date text is the value of
  \<open>formatInTimeZone(parseISO(item.call_date), 'America/New_York', 'MMM dd')\<close>, here the
  parameter \<open>formatDate\<close>, with \<open>None\<close> where evaluating that expression throws.
\<close>

definition dailyStats_item :: "(jsstring \<Rightarrow> jsstring option) \<Rightarrow> DailyRow \<Rightarrow> DailyStat option" where
  "dailyStats_item formatDate item =
     (case formatDate (call_date item) of
        None \<Rightarrow> None
      | Some d \<Rightarrow>
          Some \<lparr>date = d,
                DailyStat.calls = Number (DailyRow.call_count item),
                cost = Number (total_cost item),
                minutes = Number (total_minutes item)\<rparr>)"

text \<open>\<open>(chartData?.daily || []).map(...).reverse()\<close>\<close>

definition dailyStats ::
  "(jsstring \<Rightarrow> jsstring option) \<Rightarrow> ChartData option \<Rightarrow> DailyStat list option" where
  "dailyStats formatDate chartData =
     map_option rev
       (map_throwing (dailyStats_item formatDate)
          (case chartData of None \<Rightarrow> [] | Some cd \<Rightarrow> daily cd))"

text \<open>
  What \<open>formatDate\<close> is in the repository. The component imports both functions from
  one package, \<open>import { formatInTimeZone, parseISO } from 'date-fns-tz'\<close>, and that
  package exports \<open>format\<close>, \<open>formatInTimeZone\<close>, \<open>toDate\<close>, \<open>getTimezoneOffset\<close> and the
  two zone conversions, but no \<open>parseISO\<close> (it is a function of the package
  \<open>date-fns\<close>). The imported binding is therefore \<open>undefined\<close>, and the call
  \<open>parseISO(item.call_date)\<close> throws a \<open>TypeError\<close> on every argument, before
  \<open>formatInTimeZone\<close> is reached. \<open>'d\<close> is the type of dates, and \<open>formatInTimeZone\<close>
  stays a parameter.
\<close>

definition parseISO :: "jsstring \<Rightarrow> 'd option" where
  "parseISO s = None"

definition formatDate_of_imports :: "('d \<Rightarrow> jsstring option) \<Rightarrow> jsstring \<Rightarrow> jsstring option" where
  "formatDate_of_imports formatInTimeZone s =
     (case parseISO s of None \<Rightarrow> None | Some d \<Rightarrow> formatInTimeZone d)"

text \<open>The callback of \<open>pieData\<close>.\<close>

definition pieData_item :: "OutcomeRow \<Rightarrow> PieDatum" where
  "pieData_item item =
     \<lparr>name = outcome_name item,
      value = Number (outcome_count item),
      displayName =
        (if length (outcome_name item) > 12
         then substring (outcome_name item) 0 12 @ ascii ''...''
         else outcome_name item)\<rparr>"

text \<open>\<open>(chartData?.outcomes || []).map(...)\<close>\<close>

definition pieData :: "ChartData option \<Rightarrow> PieDatum list" where
  "pieData chartData =
     map pieData_item (case chartData of None \<Rightarrow> [] | Some cd \<Rightarrow> outcomes cd)"

text \<open>\<open>Array.from({ length: n }, (_, i) => f(i))\<close>\<close>

definition Array_from :: "nat \<Rightarrow> (nat \<Rightarrow> 'a) \<Rightarrow> 'a list" where
  "Array_from n f = map f [0..<n]"

text \<open>
  The callback of \<open>hourlyData\<close>: \<open>chartData?.hourly?.find(h => h.call_hour === hour)\<close>
  is the first matching row, or \<open>undefined\<close> (\<open>None\<close>) when there is none or when there
  is no chart data. The callback's parameter \<open>hour\<close> is written \<open>hour'\<close>, the name
  \<open>hour\<close> being the field of the entry.
\<close>

definition hourlyData_item :: "ChartData option \<Rightarrow> nat \<Rightarrow> HourlyDatum" where
  "hourlyData_item chartData hour' =
     (let hourCalls =
            (case chartData of
               None \<Rightarrow> None
             | Some cd \<Rightarrow> find (\<lambda>h. call_hour h = int hour') (hourly cd))
      in \<lparr>hour = ascii (decimal hour') @ ascii '':00'',
          HourlyDatum.calls =
            (case hourCalls of
               Some row \<Rightarrow> Number (HourlyRow.call_count row)
             | None \<Rightarrow> 0)\<rparr>)"

definition hourlyData :: "ChartData option \<Rightarrow> HourlyDatum list" where
  "hourlyData chartData = Array_from 24 (hourlyData_item chartData)"

subsection \<open>Summary statistics (CallsOverview)\<close>

record CallStatistics =
  total_calls :: int
  total_cost :: real
  total_minutes :: real
  successful_calls :: int
  success_rate :: real

text \<open>
  Numbers that need not be whole (costs, minutes) are modelled as reals, with exact
  arithmetic. \<open>statistics?.total_minutes || 0\<close>: zero when there are no statistics or
  when the value is zero, the value otherwise.
\<close>

definition totalMinutesRaw :: "CallStatistics option \<Rightarrow> real" where
  "totalMinutesRaw statistics =
     (case statistics of
        None \<Rightarrow> 0
      | Some s \<Rightarrow>
          if CallStatistics.total_minutes s = 0 then 0 else CallStatistics.total_minutes s)"

text \<open>\<open>Math.ceil(Number(totalMinutesRaw) / 3) * 3\<close>\<close>

definition roundedUpMinutes :: "CallStatistics option \<Rightarrow> int" where
  "roundedUpMinutes statistics = \<lceil>Number (totalMinutesRaw statistics) / 3\<rceil> * 3"


subsection \<open>Filters and pagination state (CallsFilters, CallsDashboard, CallsTable)\<close>

text \<open>
  The filter value: four optional texts, \<open>None\<close> for a field that is absent or
  \<open>undefined\<close>. \<open>filter_key\<close> is \<open>keyof CallsFilters\<close>.
\<close>

record CallsFilters =
  outcome :: "jsstring option"
  dateFrom :: "jsstring option"
  dateTo :: "jsstring option"
  customerNumber :: "jsstring option"

datatype filter_key = Outcome | DateFrom | DateTo | CustomerNumber

text \<open>\<open>value || undefined\<close> on a string: the empty string is falsy.\<close>

definition or_undefined :: "jsstring \<Rightarrow> jsstring option" where
  "or_undefined v = (if v = [] then None else Some v)"

text \<open>
  \<open>updateFilter\<close> and \<open>clearFilters\<close> build a new filter object and hand it to
  \<open>onFiltersChange\<close>; the functions below return that object.
\<close>

fun updateFilter :: "CallsFilters \<Rightarrow> filter_key \<Rightarrow> jsstring \<Rightarrow> CallsFilters" where
  "updateFilter filters Outcome v = filters\<lparr>outcome := or_undefined v\<rparr>"
| "updateFilter filters DateFrom v = filters\<lparr>dateFrom := or_undefined v\<rparr>"
| "updateFilter filters DateTo v = filters\<lparr>dateTo := or_undefined v\<rparr>"
| "updateFilter filters CustomerNumber v = filters\<lparr>customerNumber := or_undefined v\<rparr>"

definition clearFilters :: CallsFilters where
  "clearFilters = \<lparr>outcome = None, dateFrom = None, dateTo = None, customerNumber = None\<rparr>"

text \<open>\<open>Object.values(filters).some(value => value)\<close>\<close>

definition truthy :: "jsstring option \<Rightarrow> bool" where
  "truthy v = (case v of None \<Rightarrow> False | Some s \<Rightarrow> s \<noteq> [])"

definition hasActiveFilters :: "CallsFilters \<Rightarrow> bool" where
  "hasActiveFilters filters =
     (truthy (outcome filters) \<or> truthy (dateFrom filters)
      \<or> truthy (dateTo filters) \<or> truthy (customerNumber filters))"

text \<open>
  The result of the paginated query, without the rows of the page: \<open>count'\<close> is the
  backend's \<open>count\<close> (\<open>number | null\<close>), and \<open>count || 0\<close> is its value or zero.
\<close>

record CallsData =
  totalCount :: int
  totalPages :: int

definition CALLS_PER_PAGE :: int where
  "CALLS_PER_PAGE = 10"

definition or_zero :: "int option \<Rightarrow> int" where
  "or_zero count' = (case count' of None \<Rightarrow> 0 | Some c \<Rightarrow> if c = 0 then 0 else c)"

definition queryFn_result :: "int option \<Rightarrow> CallsData" where
  "queryFn_result count' =
     \<lparr>totalCount = or_zero count',
      totalPages = \<lceil>real_of_int (or_zero count') / real_of_int CALLS_PER_PAGE\<rceil>\<rparr>"

text \<open>
  The state of \<open>CallsDashboard\<close>: its two \<open>useState\<close> cells and what the paginated
  \<open>useQuery\<close> currently returns (\<open>data\<close>, \<open>isLoading\<close>).
\<close>

record Dashboard =
  filters :: CallsFilters
  currentPage :: int
  callsData :: "CallsData option"
  isLoadingCalls :: bool

definition initial :: Dashboard where
  "initial = \<lparr>filters = clearFilters, currentPage = 1, callsData = None, isLoadingCalls = True\<rparr>"

text \<open>The \<open>totalPages\<close> prop of the table: \<open>callsData?.totalPages || 0\<close>.\<close>

definition totalPages_prop :: "Dashboard \<Rightarrow> int" where
  "totalPages_prop s =
     (case callsData s of None \<Rightarrow> 0 | Some d \<Rightarrow> if totalPages d = 0 then 0 else totalPages d)"

text \<open>
  \<open>onFiltersChange\<close> is \<open>setFilters\<close>. Every call passes a freshly built object, so
  the dependency \<open>[filters]\<close> of the effect \<open>setCurrentPage(1)\<close> has changed at the
  render that follows, and the effect runs after it: a filter event is \<open>setFilters\<close>
  followed by the effect.
\<close>

definition setFilters :: "CallsFilters \<Rightarrow> Dashboard \<Rightarrow> Dashboard" where
  "setFilters f s = s\<lparr>filters := f\<rparr>"

definition setCurrentPage :: "int \<Rightarrow> Dashboard \<Rightarrow> Dashboard" where
  "setCurrentPage page s = s\<lparr>currentPage := page\<rparr>"

definition filters_effect :: "Dashboard \<Rightarrow> Dashboard" where
  "filters_effect s = setCurrentPage 1 s"

definition onFiltersChange :: "CallsFilters \<Rightarrow> Dashboard \<Rightarrow> Dashboard" where
  "onFiltersChange f s = filters_effect (setFilters f s)"

definition handlePageChange :: "int \<Rightarrow> Dashboard \<Rightarrow> Dashboard" where
  "handlePageChange page s = setCurrentPage page s"

text \<open>
  The pagination controls are rendered when the table is not loading and
  \<open>totalPages > 1\<close>.
\<close>

definition pagination_shown :: "Dashboard \<Rightarrow> bool" where
  "pagination_shown s = (\<not> isLoadingCalls s \<and> totalPages_prop s > 1)"

text \<open>
  The events of the dashboard: the four filter controls, the Clear button (rendered when
  \<open>hasActiveFilters\<close>), Previous, Next and the link at a position of the pagination
  window, and a change of what the query returns (no data, or the result for a count).
\<close>

datatype event =
    SelectOutcome jsstring
  | InputDateFrom jsstring
  | InputDateTo jsstring
  | InputCustomerNumber jsstring
  | ClickClear
  | ClickPrevious
  | ClickNext
  | ClickPage nat
  | QueryUpdate "int option option" bool

text \<open>The state after an event, \<open>None\<close> when the control of the event is not rendered.\<close>

fun handle :: "event \<Rightarrow> Dashboard \<Rightarrow> Dashboard option" where
  "handle (SelectOutcome v) s =
     Some (onFiltersChange
       (updateFilter (filters s) Outcome (if v = ascii ''all'' then [] else v)) s)"
| "handle (InputDateFrom v) s = Some (onFiltersChange (updateFilter (filters s) DateFrom v) s)"
| "handle (InputDateTo v) s = Some (onFiltersChange (updateFilter (filters s) DateTo v) s)"
| "handle (InputCustomerNumber v) s =
     Some (onFiltersChange (updateFilter (filters s) CustomerNumber v) s)"
| "handle ClickClear s =
     (if hasActiveFilters (filters s) then Some (onFiltersChange clearFilters s) else None)"
| "handle ClickPrevious s =
     (if pagination_shown s
      then Some (if currentPage s > 1 then handlePageChange (currentPage s - 1) s else s)
      else None)"
| "handle ClickNext s =
     (if pagination_shown s
      then Some (if currentPage s < totalPages_prop s
                 then handlePageChange (currentPage s + 1) s else s)
      else None)"
| "handle (ClickPage index) s =
     (let pages = getVisiblePages (currentPage s) (totalPages_prop s) in
      if pagination_shown s \<and> index < length pages
      then (case pages ! index of
              PageNum page \<Rightarrow> Some (handlePageChange page s)
            | Ellipsis \<Rightarrow> None)
      else None)"
| "handle (QueryUpdate d loading) s =
     Some (s\<lparr>callsData := map_option queryFn_result d, isLoadingCalls := loading\<rparr>)"

fun run :: "event list \<Rightarrow> Dashboard \<Rightarrow> Dashboard option" where
  "run [] s = Some s"
| "run (e # es) s = (case handle e s of None \<Rightarrow> None | Some s' \<Rightarrow> run es s')"

fun is_filter_event :: "event \<Rightarrow> bool" where
  "is_filter_event (SelectOutcome v) = True"
| "is_filter_event (InputDateFrom v) = True"
| "is_filter_event (InputDateTo v) = True"
| "is_filter_event (InputCustomerNumber v) = True"
| "is_filter_event ClickClear = True"
| "is_filter_event e = False"

subsection \<open>Example inputs\<close>

text \<open>Two rows for hour 9 and one row for an hour that does not exist.\<close>

definition ex_hourly :: ChartData where
  "ex_hourly = \<lparr>daily = [], outcomes = [],
     hourly = [\<lparr>call_hour = 9, call_count = 4\<rparr>, \<lparr>call_hour = 9, call_count = 7\<rparr>,
               \<lparr>call_hour = 30, call_count = 1\<rparr>]\<rparr>"

text \<open>Outcome names of 15, 10 and 12 code units.\<close>

definition ex_outcomes :: ChartData where
  "ex_outcomes = \<lparr>daily = [],
     outcomes = [\<lparr>outcome_name = ascii ''Callback needed'', outcome_count = 2\<rparr>,
                 \<lparr>outcome_name = ascii ''Not booked'', outcome_count = 7\<rparr>,
                 \<lparr>outcome_name = ascii ''Wrong number'', outcome_count = 1\<rparr>],
     hourly = []\<rparr>"

text \<open>Statistics with four minutes in total.\<close>

definition ex_statistics :: CallStatistics where
  "ex_statistics = \<lparr>total_calls = 2, total_cost = 1.5, total_minutes = 4,
     successful_calls = 1, success_rate = 50\<rparr>"

text \<open>Two daily rows, the newer one first.\<close>

definition ex_daily :: ChartData where
  "ex_daily = \<lparr>daily =
       [\<lparr>call_date = ascii ''2024-05-02'', call_count = 3, total_cost = 1.5, total_minutes = 6\<rparr>,
        \<lparr>call_date = ascii ''2024-05-01'', call_count = 8, total_cost = 4, total_minutes = 20\<rparr>],
     outcomes = [], hourly = []\<rparr>"

text \<open>
  The query reports 45 records (5 pages), then Next and the third link of the window
  are clicked.
\<close>

definition ex_events :: "event list" where
  "ex_events = [QueryUpdate (Some (Some 45)) False, ClickNext, ClickPage 2]"

section \<open>Properties of the pagination window\<close>

subsection \<open>The loop as a list of consecutive pages\<close>

lemma push_range_upto: "push_range i hi pages = pages @ map PageNum [i..hi]"
proof (induction i hi pages rule: push_range.induct)
  case (1 i hi pages)
  show ?case
  proof (cases "i \<le> hi")
    case True
    then have "push_range i hi pages = push pages (PageNum i) @ map PageNum [i + 1..hi]"
      using "1.IH" by (simp add: push_range.simps [of i hi pages])
    also have "\<dots> = pages @ map PageNum (i # [i + 1..hi])"
      by (simp add: push_def)
    also have "i # [i + 1..hi] = [i..hi]"
      using True by (simp add: upto_rec1)
    finally show ?thesis .
  next
    case False
    then show ?thesis
      by (simp add: push_range.simps [of i hi pages])
  qed
qed

lemma page_numbers_map_PageNum: "page_numbers (map PageNum ns) = ns"
  by (induction ns) simp_all

lemma Ellipsis_notin_map_PageNum: "Ellipsis \<notin> set (map PageNum ns)"
  by auto

lemma upto_5_from: "[n - 4..n] = [n - 4, n - 3, n - 2, n - 1, n]" for n :: int
proof -
  have "[n - 4..n] = (n - 4) # [n - 3..n]"
    by (simp add: upto_rec1)
  also have "[n - 3..n] = (n - 3) # [n - 2..n]"
    by (simp add: upto_rec1)
  also have "[n - 2..n] = (n - 2) # [n - 1..n]"
    by (simp add: upto_rec1)
  also have "[n - 1..n] = [n - 1, n]"
    by (simp add: upto_rec1)
  finally show ?thesis .
qed

lemma upto_3_around: "[n - 1..n + 1] = [n - 1, n, n + 1]" for n :: int
proof -
  have "[n - 1..n + 1] = (n - 1) # [n..n + 1]"
    by (simp add: upto_rec1)
  also have "[n..n + 1] = [n, n + 1]"
    by (simp add: upto_rec1)
  finally show ?thesis .
qed

lemma upto_1_5: "[1..5] = [1, 2, 3, 4, 5 :: int]"
  using upto_5_from [of 5] by simp

lemma getVisiblePages_closed:
  "getVisiblePages page pageCount =
     (if pageCount \<le> 7 then map PageNum [1..pageCount]
      else if page \<le> 4 then
        [PageNum 1, PageNum 2, PageNum 3, PageNum 4, PageNum 5, Ellipsis, PageNum pageCount]
      else if pageCount - 3 \<le> page then
        [PageNum 1, Ellipsis, PageNum (pageCount - 4), PageNum (pageCount - 3),
         PageNum (pageCount - 2), PageNum (pageCount - 1), PageNum pageCount]
      else
        [PageNum 1, Ellipsis, PageNum (page - 1), PageNum page,
         PageNum (page + 1), Ellipsis, PageNum pageCount])"
  by (simp add: getVisiblePages_def maxVisible_def push_range_upto push_def
      upto_1_5 upto_5_from upto_3_around)

subsection \<open>The four regimes of the window\<close>

text \<open>
  C1. With at most seven pages (\<open>0 \<le> totalPages \<le> 7\<close>) and any current page from 1
  on, the window is exactly the pages \<open>1, 2, ..., totalPages\<close> in ascending order, and
  it holds no ellipsis marker.
\<close>

theorem getVisiblePages_all_pages:
  assumes "0 \<le> pageCount" and "pageCount \<le> 7" and "1 \<le> page"
  shows "getVisiblePages page pageCount = map PageNum [1..pageCount]
    \<and> Ellipsis \<notin> set (getVisiblePages page pageCount)"
proof -
  have window: "getVisiblePages page pageCount = map PageNum [1..pageCount]"
    using assms(2) by (simp add: getVisiblePages_closed)
  moreover have "Ellipsis \<notin> set (map PageNum [1..pageCount])"
    by (rule Ellipsis_notin_map_PageNum)
  ultimately show ?thesis
    by simp
qed

theorem getVisiblePages_all_pages_witness:
  "(0::int) \<le> 3 \<and> (3::int) \<le> 7 \<and> (1::int) \<le> 2
    \<and> getVisiblePages 2 3 = [PageNum 1, PageNum 2, PageNum 3]
    \<and> Ellipsis \<notin> set (getVisiblePages 2 3)"
  using getVisiblePages_all_pages [of 3 2] by (simp add: upto_rec1)

text \<open>
  C2. With more than seven pages and the current page among the first four
  (\<open>1 \<le> currentPage \<le> 4\<close>), the window is exactly pages 1 to 5, one ellipsis, and the
  last page.
\<close>

theorem getVisiblePages_near_start:
  assumes "7 < pageCount" and "1 \<le> page" and "page \<le> 4"
  shows "getVisiblePages page pageCount =
    [PageNum 1, PageNum 2, PageNum 3, PageNum 4, PageNum 5, Ellipsis, PageNum pageCount]"
  using assms by (simp add: getVisiblePages_closed)

theorem getVisiblePages_near_start_witness:
  "(7::int) < 12 \<and> (1::int) \<le> 4 \<and> (4::int) \<le> 4
    \<and> getVisiblePages 4 12 =
      [PageNum 1, PageNum 2, PageNum 3, PageNum 4, PageNum 5, Ellipsis, PageNum 12]"
  using getVisiblePages_near_start [of 12 4] by simp

text \<open>
  C3. With more than seven pages and the current page within three of the last
  (\<open>totalPages - 3 \<le> currentPage\<close>, and \<open>currentPage > 4\<close> so that the near-start
  branch is not taken), the window is exactly page 1, one ellipsis, and the last five
  pages \<open>totalPages - 4, ..., totalPages\<close>.
\<close>

theorem getVisiblePages_near_end:
  assumes "7 < pageCount" and "pageCount - 3 \<le> page" and "4 < page"
  shows "getVisiblePages page pageCount =
    [PageNum 1, Ellipsis, PageNum (pageCount - 4), PageNum (pageCount - 3),
     PageNum (pageCount - 2), PageNum (pageCount - 1), PageNum pageCount]"
  using assms by (simp add: getVisiblePages_closed)

theorem getVisiblePages_near_end_witness:
  "(7::int) < 12 \<and> (12::int) - 3 \<le> 9 \<and> (4::int) < 9
    \<and> getVisiblePages 9 12 =
      [PageNum 1, Ellipsis, PageNum 8, PageNum 9, PageNum 10, PageNum 11, PageNum 12]"
  using getVisiblePages_near_end [of 12 9] by simp

text \<open>
  C4. With more than seven pages and the current page strictly between 4 and
  \<open>totalPages - 3\<close>, the window is exactly page 1, an ellipsis, the pages
  \<open>currentPage - 1, currentPage, currentPage + 1\<close>, a second ellipsis, and the last
  page. In particular page 10 of 20 gives \<open>1, ellipsis, 9, 10, 11, ellipsis, 20\<close>.
\<close>

theorem getVisiblePages_middle:
  "(7 < pageCount \<and> 4 < page \<and> page < pageCount - 3 \<longrightarrow>
      getVisiblePages page pageCount =
        [PageNum 1, Ellipsis, PageNum (page - 1), PageNum page,
         PageNum (page + 1), Ellipsis, PageNum pageCount])
    \<and> getVisiblePages 10 20 =
        [PageNum 1, Ellipsis, PageNum 9, PageNum 10, PageNum 11, Ellipsis, PageNum 20]"
  by (simp add: getVisiblePages_closed)

theorem getVisiblePages_middle_witness:
  "(7::int) < 9 \<and> (4::int) < 5 \<and> (5::int) < 9 - 3
    \<and> getVisiblePages 5 9 =
      [PageNum 1, Ellipsis, PageNum 4, PageNum 5, PageNum 6, Ellipsis, PageNum 9]"
  using getVisiblePages_middle [of 9 5] by simp

text \<open>
  C5. For every current page from 1 on and every page count from 0 on: no page number
  occurs twice in the window, every page number \<open>n\<close> in it satisfies
  \<open>1 \<le> n \<le> totalPages\<close>, the window has at most 9 entries, and with no pages at all
  (\<open>totalPages = 0\<close>) the window is empty.
\<close>

theorem getVisiblePages_bounded:
  assumes "1 \<le> page" and "0 \<le> pageCount"
  shows "distinct (page_numbers (getVisiblePages page pageCount))
    \<and> (\<forall>n \<in> set (page_numbers (getVisiblePages page pageCount)).
          1 \<le> n \<and> n \<le> pageCount)
    \<and> length (getVisiblePages page pageCount) \<le> 9
    \<and> (pageCount = 0 \<longrightarrow> getVisiblePages page pageCount = [])"
proof (cases "pageCount \<le> 7")
  case True
  then have window: "getVisiblePages page pageCount = map PageNum [1..pageCount]"
    by (simp add: getVisiblePages_closed)
  have "length [1..pageCount] = nat pageCount"
    by simp
  then have len: "length (getVisiblePages page pageCount) \<le> 9"
    using True by (simp add: window)
  have nums: "page_numbers (getVisiblePages page pageCount) = [1..pageCount]"
    by (simp add: window page_numbers_map_PageNum)
  have none: "getVisiblePages page pageCount = []" if "pageCount = 0"
    unfolding window using that by simp
  show ?thesis
    using len none by (simp add: nums)
next
  case False
  then show ?thesis
    by (simp add: getVisiblePages_closed)
qed

theorem getVisiblePages_bounded_witness:
  "(1::int) \<le> 10 \<and> (0::int) \<le> 20
    \<and> distinct (page_numbers (getVisiblePages 10 20))
    \<and> page_numbers (getVisiblePages 10 20) = [1, 9, 10, 11, 20]
    \<and> length (getVisiblePages 10 20) = 7
    \<and> getVisiblePages 1 0 = []"
  using getVisiblePages_bounded [of 10 20] getVisiblePages_bounded [of 1 0]
  by (simp add: getVisiblePages_closed)

section \<open>Properties of the chart series\<close>

subsection \<open>Hourly series\<close>

lemma ascii_append: "ascii xs @ ascii ys = ascii (xs @ ys)"
  by (simp add: ascii_def)

lemma length_ascii: "length (ascii s) = length s"
  by (simp add: ascii_def)

lemma length_hourlyData: "length (hourlyData chartData) = 24"
  by (simp add: hourlyData_def Array_from_def)

lemma nth_hourlyData:
  "h < 24 \<Longrightarrow> hourlyData chartData ! h = hourlyData_item chartData h"
  by (simp add: hourlyData_def Array_from_def)

lemma upt_24: "[0..<24] = [0,1,2,3,4,5,6,7,8,9,10,11,12,13,14,15,16,17,18,19,20,21,22,23]"
  by (simp add: upt_rec)

lemma hour_labels:
  "map hour (hourlyData chartData) =
     map ascii [''0:00'', ''1:00'', ''2:00'', ''3:00'', ''4:00'', ''5:00'', ''6:00'', ''7:00'',
       ''8:00'', ''9:00'', ''10:00'', ''11:00'', ''12:00'', ''13:00'', ''14:00'', ''15:00'',
       ''16:00'', ''17:00'', ''18:00'', ''19:00'', ''20:00'', ''21:00'', ''22:00'', ''23:00'']"
  by (simp add: hourlyData_def Array_from_def upt_24 hourlyData_item_def Let_def
      ascii_append decimal.simps digits_def)

lemma calls_first_match:
  assumes "i < length (hourly cd)" and "call_hour (hourly cd ! i) = int h"
    and "\<forall>j<i. call_hour (hourly cd ! j) \<noteq> int h"
  shows "HourlyDatum.calls (hourlyData_item (Some cd) h) = HourlyRow.call_count (hourly cd ! i)"
proof -
  have "find (\<lambda>r. call_hour r = int h) (hourly cd) = Some (hourly cd ! i)"
    using assms by (auto simp: find_Some_iff)
  then show ?thesis
    by (simp add: hourlyData_item_def Number_def)
qed

lemma calls_no_match:
  assumes "\<forall>row \<in> set (hourly cd). call_hour row \<noteq> int h"
  shows "HourlyDatum.calls (hourlyData_item (Some cd) h) = 0"
proof -
  have "find (\<lambda>r. call_hour r = int h) (hourly cd) = None"
    using assms by (simp add: find_None_iff)
  then show ?thesis
    by (simp add: hourlyData_item_def)
qed

text \<open>
  C6. Whatever the hourly rows (sparse, empty, with repeated or out-of-range hours), the
  hourly series has exactly 24 entries, labelled \<open>0:00\<close> to \<open>23:00\<close> in ascending
  order; the entry of hour \<open>h\<close> carries the count of the first row whose \<open>call_hour\<close> is
  \<open>h\<close>, and 0 when no row has that hour. In particular the single row (hour 3, count 5)
  gives count 5 at hour 3 and count 0 at the 23 other hours.
\<close>

theorem hourlyData_dense:
  "length (hourlyData (Some cd)) = 24
    \<and> map hour (hourlyData (Some cd)) =
        map ascii [''0:00'', ''1:00'', ''2:00'', ''3:00'', ''4:00'', ''5:00'', ''6:00'',
          ''7:00'', ''8:00'', ''9:00'', ''10:00'', ''11:00'', ''12:00'', ''13:00'', ''14:00'',
          ''15:00'', ''16:00'', ''17:00'', ''18:00'', ''19:00'', ''20:00'', ''21:00'',
          ''22:00'', ''23:00'']
    \<and> (\<forall>h<24. \<forall>i<length (hourly cd).
          call_hour (hourly cd ! i) = int h \<longrightarrow>
          (\<forall>j<i. call_hour (hourly cd ! j) \<noteq> int h) \<longrightarrow>
          HourlyDatum.calls (hourlyData (Some cd) ! h) = HourlyRow.call_count (hourly cd ! i))
    \<and> (\<forall>h<24. (\<forall>row \<in> set (hourly cd). call_hour row \<noteq> int h) \<longrightarrow>
          HourlyDatum.calls (hourlyData (Some cd) ! h) = 0)
    \<and> map HourlyDatum.calls
        (hourlyData (Some \<lparr>daily = ds, outcomes = os,
           hourly = [\<lparr>call_hour = 3, call_count = 5\<rparr>]\<rparr>)) = (replicate 24 0)[3 := 5]"
proof (intro conjI allI impI)
  show "length (hourlyData (Some cd)) = 24"
    by (rule length_hourlyData)
  show "map hour (hourlyData (Some cd)) =
        map ascii [''0:00'', ''1:00'', ''2:00'', ''3:00'', ''4:00'', ''5:00'', ''6:00'',
          ''7:00'', ''8:00'', ''9:00'', ''10:00'', ''11:00'', ''12:00'', ''13:00'', ''14:00'',
          ''15:00'', ''16:00'', ''17:00'', ''18:00'', ''19:00'', ''20:00'', ''21:00'',
          ''22:00'', ''23:00'']"
    by (rule hour_labels)
next
  fix h i
  assume "h < 24" "i < length (hourly cd)" "call_hour (hourly cd ! i) = int h"
    "\<forall>j<i. call_hour (hourly cd ! j) \<noteq> int h"
  then show "HourlyDatum.calls (hourlyData (Some cd) ! h) = HourlyRow.call_count (hourly cd ! i)"
    by (simp add: nth_hourlyData calls_first_match)
next
  fix h
  assume "h < 24" "\<forall>row \<in> set (hourly cd). call_hour row \<noteq> int h"
  then show "HourlyDatum.calls (hourlyData (Some cd) ! h) = 0"
    by (simp add: nth_hourlyData calls_no_match)
next
  let ?ex = "\<lparr>daily = ds, outcomes = os, hourly = [\<lparr>call_hour = 3, call_count = 5\<rparr>]\<rparr>"
  show "map HourlyDatum.calls (hourlyData (Some ?ex)) = (replicate 24 0)[3 := 5]"
  proof (rule nth_equalityI)
    show "length (map HourlyDatum.calls (hourlyData (Some ?ex))) = length ((replicate 24 (0::int))[3 := 5])"
      by (simp add: length_hourlyData)
  next
    fix i
    assume "i < length (map HourlyDatum.calls (hourlyData (Some ?ex)))"
    then have i: "i < 24"
      by (simp add: length_hourlyData)
    then show "map HourlyDatum.calls (hourlyData (Some ?ex)) ! i = (replicate 24 0)[3 := 5] ! i"
      by (simp add: length_hourlyData nth_hourlyData hourlyData_item_def Number_def)
  qed
qed

theorem hourlyData_dense_witness:
  "length (hourlyData (Some ex_hourly)) = 24
    \<and> HourlyDatum.calls (hourlyData (Some ex_hourly) ! 9) = 4
    \<and> HourlyDatum.calls (hourlyData (Some ex_hourly) ! 0) = 0"
proof -
  note dense = hourlyData_dense [of ex_hourly]
  have first: "HourlyDatum.calls (hourlyData (Some ex_hourly) ! 9) = 4"
    using dense [THEN conjunct2, THEN conjunct2, THEN conjunct1, rule_format, of 9 0]
    by (simp add: ex_hourly_def)
  have no_row: "\<forall>row \<in> set (hourly ex_hourly). call_hour row \<noteq> int 0"
    by (simp add: ex_hourly_def)
  have none: "HourlyDatum.calls (hourlyData (Some ex_hourly) ! 0) = 0"
    using dense [THEN conjunct2, THEN conjunct2, THEN conjunct2, THEN conjunct1, THEN spec, of 0]
      no_row
    by simp
  show ?thesis
    using dense first none by simp
qed

subsection \<open>Outcome series\<close>

lemma substring_prefix: "substring s 0 n = take n s"
  by (simp add: substring_def)

lemma length_pieData: "length (pieData (Some cd)) = length (outcomes cd)"
  by (simp add: pieData_def)

lemma nth_pieData:
  "i < length (outcomes cd) \<Longrightarrow> pieData (Some cd) ! i = pieData_item (outcomes cd ! i)"
  by (simp add: pieData_def)

lemma displayName_short:
  "length (outcome_name item) \<le> 12 \<Longrightarrow> displayName (pieData_item item) = outcome_name item"
  by (simp add: pieData_item_def)

lemma displayName_long:
  "12 < length (outcome_name item) \<Longrightarrow>
     displayName (pieData_item item) = take 12 (outcome_name item) @ ascii ''...''"
  by (simp add: pieData_item_def substring_prefix)

text \<open>
  C7. The outcome series has one entry per outcome row, carrying the full category name
  \<open>s\<close> and a display label: the label is \<open>s\<close> itself when \<open>s\<close> has at most 12 code
  units, and the first 12 code units of \<open>s\<close> followed by \<open>...\<close> when it has more. In
  particular a name of length 15 becomes its first 12 code units plus \<open>...\<close>, and a
  name of length 10 is unchanged.
\<close>

theorem pieData_displayName:
  "length (pieData (Some cd)) = length (outcomes cd)
    \<and> (\<forall>i<length (outcomes cd).
          let s = outcome_name (outcomes cd ! i); entry = pieData (Some cd) ! i in
            name entry = s
          \<and> (length s \<le> 12 \<longrightarrow> displayName entry = s)
          \<and> (12 < length s \<longrightarrow> displayName entry = take 12 s @ ascii ''...'')
          \<and> (length s = 15 \<longrightarrow>
                displayName entry = take 12 s @ ascii ''...'' \<and> length (displayName entry) = 15)
          \<and> (length s = 10 \<longrightarrow> displayName entry = s))"
proof (intro conjI allI impI)
  show "length (pieData (Some cd)) = length (outcomes cd)"
    by (rule length_pieData)
next
  fix i
  assume i: "i < length (outcomes cd)"
  define item where "item = outcomes cd ! i"
  have entry: "pieData (Some cd) ! i = pieData_item item"
    using i by (simp add: nth_pieData item_def)
  have "name (pieData_item item) = outcome_name item"
    by (simp add: pieData_item_def)
  moreover have "displayName (pieData_item item) = outcome_name item"
    if "length (outcome_name item) \<le> 12"
    using that by (rule displayName_short)
  moreover have long: "displayName (pieData_item item) = take 12 (outcome_name item) @ ascii ''...''"
    if "12 < length (outcome_name item)"
    using that by (rule displayName_long)
  moreover have "displayName (pieData_item item) = take 12 (outcome_name item) @ ascii ''...''
      \<and> length (displayName (pieData_item item)) = 15"
    if "length (outcome_name item) = 15"
    using that long by (simp add: length_ascii)
  moreover have "displayName (pieData_item item) = outcome_name item"
    if "length (outcome_name item) = 10"
    using that by (simp add: displayName_short)
  ultimately show "let s = outcome_name (outcomes cd ! i); entry = pieData (Some cd) ! i in
            name entry = s
          \<and> (length s \<le> 12 \<longrightarrow> displayName entry = s)
          \<and> (12 < length s \<longrightarrow> displayName entry = take 12 s @ ascii ''...'')
          \<and> (length s = 15 \<longrightarrow>
                displayName entry = take 12 s @ ascii ''...'' \<and> length (displayName entry) = 15)
          \<and> (length s = 10 \<longrightarrow> displayName entry = s)"
    unfolding Let_def entry item_def [symmetric] by blast
qed

theorem pieData_displayName_witness:
  "length (pieData (Some ex_outcomes)) = 3
    \<and> displayName (pieData (Some ex_outcomes) ! 0) = ascii ''Callback nee...''
    \<and> displayName (pieData (Some ex_outcomes) ! 1) = ascii ''Not booked''
    \<and> displayName (pieData (Some ex_outcomes) ! 2) = ascii ''Wrong number''"
proof -
  note disp = pieData_displayName [of ex_outcomes, unfolded Let_def]
  have len: "length (pieData (Some ex_outcomes)) = 3"
    using disp by (simp add: ex_outcomes_def)
  have 0: "displayName (pieData (Some ex_outcomes) ! 0) = ascii ''Callback nee...''"
    using disp [THEN conjunct2, THEN spec, of 0]
    by (simp add: ex_outcomes_def length_ascii ascii_append [symmetric] ascii_def)
  have 1: "displayName (pieData (Some ex_outcomes) ! 1) = ascii ''Not booked''"
    using disp [THEN conjunct2, THEN spec, of 1]
    by (simp add: ex_outcomes_def length_ascii)
  have 2: "displayName (pieData (Some ex_outcomes) ! 2) = ascii ''Wrong number''"
    using disp [THEN conjunct2, THEN spec, of 2]
    by (simp add: ex_outcomes_def length_ascii)
  show ?thesis
    using len 0 1 2 by simp
qed

subsection \<open>Daily series\<close>

lemma map_throwing_total:
  "\<forall>x \<in> set xs. f x \<noteq> None \<Longrightarrow> map_throwing f xs = Some (map (the \<circ> f) xs)"
  by (induction xs) auto

lemma map_throwing_Some_map:
  "map_throwing f xs = Some ys \<Longrightarrow> map f xs = map Some ys"
  by (induction xs arbitrary: ys) (auto split: option.splits)

lemma dailyStats_item_fields:
  assumes "formatDate (call_date row) \<noteq> None"
  shows "formatDate (call_date row) = Some (date (the (dailyStats_item formatDate row)))
    \<and> DailyStat.calls (the (dailyStats_item formatDate row)) = DailyRow.call_count row
    \<and> cost (the (dailyStats_item formatDate row)) = DailyRow.total_cost row
    \<and> minutes (the (dailyStats_item formatDate row)) = DailyRow.total_minutes row"
  using assms by (auto simp: dailyStats_item_def Number_def)

lemma dailyStats_item_defined:
  "formatDate (call_date row) \<noteq> None \<Longrightarrow> dailyStats_item formatDate row \<noteq> None"
  by (auto simp: dailyStats_item_def)

lemma descending_reversed:
  fixes ts :: "'a \<Rightarrow> 'k::linorder"
  assumes desc: "sorted_wrt (\<lambda>a b. ts b \<le> ts a) rows" and "i < j" and "j < length rows"
  shows "ts (rows ! (length rows - 1 - i)) \<le> ts (rows ! (length rows - 1 - j))"
proof -
  have "length rows - 1 - j < length rows - 1 - i" and "length rows - 1 - i < length rows"
    using assms(2,3) by linarith+
  then show ?thesis
    using desc by (simp add: sorted_wrt_iff_nth_less)
qed

text \<open>
  What \<open>map(...).reverse()\<close> does for a date expression that evaluates on every row:
  the series exists and is the element-wise transformation of the rows in reversed
  order. It has as many entries as there are rows, its entry \<open>i\<close> is made from the row
  at position \<open>length - 1 - i\<close> (formatted date, and the count, cost and minutes of the
  row), and as a multiset it is the transformed rows; rows in descending order of a
  timestamp \<open>ts\<close> give entries in ascending order of it.
\<close>

lemma dailyStats_reversed_if_formatted:
  fixes ts :: "DailyRow \<Rightarrow> 'k::linorder"
  assumes "\<forall>row \<in> set (daily cd). formatDate (call_date row) \<noteq> None"
  shows "\<exists>series. dailyStats formatDate (Some cd) = Some series
    \<and> length series = length (daily cd)
    \<and> (\<forall>i<length series.
          let row = daily cd ! (length (daily cd) - 1 - i) in
            formatDate (call_date row) = Some (date (series ! i))
          \<and> DailyStat.calls (series ! i) = DailyRow.call_count row
          \<and> cost (series ! i) = DailyRow.total_cost row
          \<and> minutes (series ! i) = DailyRow.total_minutes row)
    \<and> mset (map Some series) = mset (map (dailyStats_item formatDate) (daily cd))
    \<and> (sorted_wrt (\<lambda>a b. ts b \<le> ts a) (daily cd) \<longrightarrow>
          (\<forall>i j. i < j \<longrightarrow> j < length series \<longrightarrow>
             ts (daily cd ! (length (daily cd) - 1 - i))
               \<le> ts (daily cd ! (length (daily cd) - 1 - j))))"
proof -
  define rows where "rows = daily cd"
  define f where "f = dailyStats_item formatDate"
  define mapped where "mapped = map (the \<circ> f) rows"
  define series where "series = rev mapped"
  have defined: "\<forall>row \<in> set rows. f row \<noteq> None"
    using assms by (simp add: rows_def f_def dailyStats_item_defined)
  then have mapped: "map_throwing f rows = Some mapped"
    unfolding mapped_def by (rule map_throwing_total)
  then have result: "dailyStats formatDate (Some cd) = Some series"
    by (simp add: dailyStats_def series_def rows_def f_def)
  have len: "length series = length rows"
    by (simp add: series_def mapped_def)
  have entry: "series ! i = the (f (rows ! (length rows - 1 - i)))" if "i < length series" for i
  proof -
    have "i < length mapped"
      using that by (simp add: series_def)
    then have "series ! i = mapped ! (length mapped - Suc i)"
      by (simp add: series_def rev_nth)
    also have "\<dots> = the (f (rows ! (length rows - 1 - i)))"
      using that len by (simp add: mapped_def)
    finally show ?thesis .
  qed
  have fields: "let row = rows ! (length rows - 1 - i) in
        formatDate (call_date row) = Some (date (series ! i))
      \<and> DailyStat.calls (series ! i) = DailyRow.call_count row
      \<and> cost (series ! i) = DailyRow.total_cost row
      \<and> minutes (series ! i) = DailyRow.total_minutes row" if "i < length series" for i
  proof -
    have "rows ! (length rows - 1 - i) \<in> set rows"
      using that len by simp
    then have "formatDate (call_date (rows ! (length rows - 1 - i))) \<noteq> None"
      using assms by (simp add: rows_def)
    then show ?thesis
      unfolding Let_def entry [OF that] f_def by (rule dailyStats_item_fields)
  qed
  have "map f rows = map Some mapped"
    using mapped by (rule map_throwing_Some_map)
  then have "mset (map f rows) = mset (map Some mapped)"
    by simp
  also have "\<dots> = mset (map Some series)"
    by (simp add: series_def)
  finally have same: "mset (map Some series) = mset (map f rows)"
    by simp
  have order: "ts (rows ! (length rows - 1 - i)) \<le> ts (rows ! (length rows - 1 - j))"
    if "sorted_wrt (\<lambda>a b. ts b \<le> ts a) rows" and "i < j" and "j < length series" for i j
    using that len descending_reversed [of ts rows i j] by simp
  show ?thesis
    using result len fields same order unfolding rows_def f_def by blast
qed

subsection \<open>Daily series with the imported date functions\<close>

lemma formatDate_of_imports_throws: "formatDate_of_imports formatInTimeZone s = None"
  by (simp add: formatDate_of_imports_def parseISO_def)

lemma dailyStats_item_throws:
  "dailyStats_item (formatDate_of_imports formatInTimeZone) row = None"
  by (simp add: dailyStats_item_def formatDate_of_imports_throws)

lemma map_throwing_always_None:
  "(\<And>x. f x = None) \<Longrightarrow> map_throwing f xs = (if xs = [] then Some [] else None)"
  by (cases xs) simp_all

text \<open>
  C8. The daily series is meant to be the element-wise transformation (formatted date,
  count, cost, minutes) of the fetched rows in reversed order, with the same length and
  the same entries. With the date functions as the component imports them, computing
  the series throws on every non-empty list of rows: only the empty list gives a series
  (the empty one), and the two rows of \<open>ex_daily\<close> give none.
\<close>

theorem dailyStats_throws_on_rows:
  "dailyStats (formatDate_of_imports formatInTimeZone) (Some cd) =
      (if daily cd = [] then Some [] else None)
    \<and> dailyStats (formatDate_of_imports formatInTimeZone) (Some ex_daily) = None"
proof -
  have general: "dailyStats (formatDate_of_imports formatInTimeZone) (Some c) =
      (if daily c = [] then Some [] else None)" for c
    by (simp add: dailyStats_def map_throwing_always_None [OF dailyStats_item_throws])
  have "daily ex_daily \<noteq> []"
    by (simp add: ex_daily_def)
  then have "dailyStats (formatDate_of_imports formatInTimeZone) (Some ex_daily) = None"
    by (simp add: general)
  then show ?thesis
    by (simp add: general)
qed

section \<open>Properties of the summary statistics\<close>

lemma roundedUpMinutes_Some:
  "roundedUpMinutes (Some s) = \<lceil>CallStatistics.total_minutes s / 3\<rceil> * 3"
  by (simp add: roundedUpMinutes_def totalMinutesRaw_def Number_def)

text \<open>
  C10. The number shown on the "Total Minutes" card is not the fetched \<open>total_minutes\<close>
  but \<open>ceil(total_minutes / 3) * 3\<close>: for every non-negative \<open>total_minutes\<close> it is a
  multiple of 3, it is at least \<open>total_minutes\<close>, and it exceeds \<open>total_minutes\<close> by
  strictly less than 3.
\<close>

theorem roundedUpMinutes_next_multiple:
  assumes "0 \<le> CallStatistics.total_minutes s"
  shows "roundedUpMinutes (Some s) = \<lceil>CallStatistics.total_minutes s / 3\<rceil> * 3
    \<and> 3 dvd roundedUpMinutes (Some s)
    \<and> CallStatistics.total_minutes s \<le> of_int (roundedUpMinutes (Some s))
    \<and> of_int (roundedUpMinutes (Some s)) < CallStatistics.total_minutes s + 3"
proof -
  define x where "x = CallStatistics.total_minutes s"
  define k where "k = \<lceil>x / 3\<rceil>"
  have rounded: "roundedUpMinutes (Some s) = k * 3"
    by (simp add: roundedUpMinutes_Some k_def x_def)
  have "x / 3 \<le> of_int k"
    unfolding k_def by (rule le_of_int_ceiling)
  then have lower: "x \<le> of_int (k * 3)"
    by simp
  have "of_int k - 1 < x / 3"
    unfolding k_def using ceiling_correct [of "x / 3"] by (rule conjunct1)
  then have upper: "of_int (k * 3) < x + 3"
    by simp
  show ?thesis
    using lower upper by (simp add: rounded k_def x_def)
qed

theorem roundedUpMinutes_next_multiple_witness:
  "0 \<le> CallStatistics.total_minutes ex_statistics
    \<and> CallStatistics.total_minutes ex_statistics = 4
    \<and> roundedUpMinutes (Some ex_statistics) = 6"
  using roundedUpMinutes_next_multiple [of ex_statistics]
  by (simp add: ex_statistics_def)

section \<open>Properties of the dashboard state\<close>

lemma currentPage_onFiltersChange: "currentPage (onFiltersChange f s) = 1"
  by (simp add: onFiltersChange_def filters_effect_def setCurrentPage_def setFilters_def)

lemma filter_event_page:
  "is_filter_event e \<Longrightarrow> handle e s = Some s' \<Longrightarrow> currentPage s' = 1"
  by (cases e) (auto simp: currentPage_onFiltersChange split: if_splits)

lemma other_event_filters:
  "\<not> is_filter_event e \<Longrightarrow> handle e s = Some s' \<Longrightarrow> filters s' = filters s"
  by (cases e)
    (auto simp: handlePageChange_def setCurrentPage_def Let_def
      split: if_splits page_item.splits)

text \<open>
  C9. From any state reached from the initial state (page 1), every filter event
  (replacing a field or clearing all fields) leaves the current page at 1, so that
  \<open>1 \<le> currentPage \<le> max(1, totalPages)\<close> holds after it; and an event after which the
  filter value differs is a filter event, hence sets the current page to 1.
\<close>

theorem filter_change_resets_page:
  assumes "run es initial = Some s" and "handle e s = Some s'"
  shows "(is_filter_event e \<longrightarrow>
            currentPage s' = 1 \<and> 1 \<le> currentPage s' \<and> currentPage s' \<le> max 1 (totalPages_prop s'))
    \<and> (filters s' \<noteq> filters s \<longrightarrow> is_filter_event e \<and> currentPage s' = 1)"
proof -
  have reset: "currentPage s' = 1" if "is_filter_event e"
    using that assms(2) by (rule filter_event_page)
  have "is_filter_event e" if "filters s' \<noteq> filters s"
    using that assms(2) other_event_filters by blast
  then show ?thesis
    using reset by auto
qed

lemma ex_events_run:
  "run ex_events initial =
     Some \<lparr>filters = clearFilters, currentPage = 3,
            callsData = Some \<lparr>totalCount = 45, totalPages = 5\<rparr>, isLoadingCalls = False\<rparr>"
  by (simp add: ex_events_def initial_def queryFn_result_def or_zero_def CALLS_PER_PAGE_def
      pagination_shown_def totalPages_prop_def handlePageChange_def setCurrentPage_def
      getVisiblePages_closed upto_rec1)

theorem filter_change_resets_page_witness:
  "\<exists>s s'. run ex_events initial = Some s \<and> currentPage s = 3
      \<and> handle (InputCustomerNumber (ascii ''555'')) s = Some s'
      \<and> customerNumber (filters s') = Some (ascii ''555'')
      \<and> filters s' \<noteq> filters s
      \<and> currentPage s' = 1 \<and> currentPage s' \<le> max 1 (totalPages_prop s')"
proof -
  define s where "s = \<lparr>filters = clearFilters, currentPage = 3,
    callsData = Some \<lparr>totalCount = 45, totalPages = 5\<rparr>, isLoadingCalls = False\<rparr>"
  define s' where "s' = onFiltersChange (updateFilter (filters s) CustomerNumber (ascii ''555'')) s"
  have run: "run ex_events initial = Some s"
    by (simp add: ex_events_run s_def)
  have step: "handle (InputCustomerNumber (ascii ''555'')) s = Some s'"
    by (simp add: s'_def)
  have new: "customerNumber (filters s') = Some (ascii ''555'')"
    by (simp add: s'_def s_def onFiltersChange_def filters_effect_def setCurrentPage_def
        setFilters_def or_undefined_def ascii_def)
  then have changed: "filters s' \<noteq> filters s"
    by (auto simp: s_def clearFilters_def)
  have "currentPage s' = 1 \<and> currentPage s' \<le> max 1 (totalPages_prop s')"
    using filter_change_resets_page [OF run step] by simp
  moreover have "currentPage s = 3"
    by (simp add: s_def)
  ultimately show ?thesis
    using run step new changed by blast
qed

end
